theory Spec2Isabelle
  imports Main
begin

section \<open>The entity store: tables, constraints and row-level security\<close>

text \<open>
  The store is the PostgreSQL schema of the migrations under \<^verbatim>\<open>supabase/migrations\<close>.
  Each table is the list of its rows, in insertion order. A column declared
  \<^verbatim>\<open>NOT NULL\<close> has a plain type in the stored row, a nullable column an option type.
  The timestamp columns and the free-text columns that no constraint, policy, trigger
  or foreign key reads (\<^verbatim>\<open>created_at\<close>, \<^verbatim>\<open>updated_at\<close>, \<^verbatim>\<open>description\<close>,
  \<^verbatim>\<open>assignee\<close>, \<^verbatim>\<open>due_date\<close>, \<^verbatim>\<open>start_date\<close>, \<^verbatim>\<open>tags\<close>, the file columns of
  an attachment, the text columns of a comment) are left out of the rows.

  The meaning of the SQL constructs is PostgreSQL's: a \<^verbatim>\<open>USING\<close> expression of a
  policy selects the existing rows a statement may see, a \<^verbatim>\<open>WITH CHECK\<close> expression
  is evaluated on the new row and raises an error when it is not true, a \<^verbatim>\<open>CHECK\<close>
  constraint is violated only when its expression is false (\<^verbatim>\<open>NULL\<close> passes), a
  statement that raises leaves the database as it was.
\<close>

type_synonym uuid = nat

text \<open>A column of a request payload: the key is absent, or JSON null, or a value.\<close>

datatype 'a col = Omitted | Null | Val 'a

text \<open>
  The value a column takes: on insert the first argument is the column's default, on
  update the value the row holds.
\<close>

fun col_value :: "'a option \<Rightarrow> 'a col \<Rightarrow> 'a option" where
  "col_value d Omitted = d"
| "col_value d Null = None"
| "col_value d (Val v) = Some v"

datatype pg_error =
    Rls_violation string
  | Not_null_violation string string
  | Check_violation string
  | Unique_violation string
  | Foreign_key_violation string

record client =
  c_id :: uuid
  c_user_id :: uuid
  c_name :: string

record client_category =
  cc_id :: uuid
  cc_client_id :: uuid
  cc_category :: string

record task =
  t_id :: uuid
  t_user_id :: uuid
  t_client_id :: "uuid option"
  t_category :: string
  t_name :: string
  t_status :: string
  t_priority :: "string option"

record task_comment =
  tc_id :: uuid
  tc_task_id :: uuid
  tc_user_id :: uuid

record task_attachment =
  ta_id :: uuid
  ta_task_id :: uuid
  ta_user_id :: uuid

record db =
  auth_users :: "uuid list"
  clients :: "client list"
  client_categories :: "client_category list"
  tasks :: "task list"
  task_comments :: "task_comment list"
  task_attachments :: "task_attachment list"

definition empty_db :: "uuid list \<Rightarrow> db" where
  "empty_db us = \<lparr>auth_users = us, clients = [], client_categories = [], tasks = [],
     task_comments = [], task_attachments = []\<rparr>"

text \<open>
  One request of a caller is one transaction: it commits the statement's new database,
  or, when the statement raises, reports the error and keeps the database it started from.
\<close>

definition request :: "(db \<Rightarrow> pg_error + 'r \<times> db) \<Rightarrow> db \<Rightarrow> (pg_error + 'r) \<times> db" where
  "request stmt s = (case stmt s of Inl e \<Rightarrow> (Inl e, s) | Inr (r, s') \<Rightarrow> (Inr r, s'))"

subsection \<open>Policies of \<^verbatim>\<open>clients\<close>\<close>

text \<open>
  Every policy is \<^verbatim>\<open>TO authenticated\<close>; the first argument is \<^verbatim>\<open>auth.uid()\<close>, the
  identity of the authenticated caller. A \<^verbatim>\<open>WITH CHECK\<close> policy sees the new row
  before the \<^verbatim>\<open>NOT NULL\<close> constraints are checked, so its \<^verbatim>\<open>user_id\<close> may be null;
  the comparison with null is not true.
\<close>

definition users_can_view_their_own_clients :: "uuid \<Rightarrow> client \<Rightarrow> bool" where
  "users_can_view_their_own_clients uid c = (uid = c_user_id c)"

definition users_can_create_clients :: "uuid \<Rightarrow> uuid option \<Rightarrow> bool" where
  "users_can_create_clients uid new_user_id = (Some uid = new_user_id)"

definition users_can_update_their_own_clients_using :: "uuid \<Rightarrow> client \<Rightarrow> bool" where
  "users_can_update_their_own_clients_using uid c = (uid = c_user_id c)"

definition users_can_update_their_own_clients_check :: "uuid \<Rightarrow> uuid option \<Rightarrow> bool" where
  "users_can_update_their_own_clients_check uid new_user_id = (Some uid = new_user_id)"

definition users_can_delete_their_own_clients :: "uuid \<Rightarrow> client \<Rightarrow> bool" where
  "users_can_delete_their_own_clients uid c = (uid = c_user_id c)"

subsection \<open>Policies of \<^verbatim>\<open>client_categories\<close>\<close>

text \<open>
  The subquery on \<^verbatim>\<open>clients\<close> runs as the caller, so it sees the rows the select
  policy of \<^verbatim>\<open>clients\<close> lets through. The table has no update and no delete policy.
\<close>

definition owns_client :: "uuid \<Rightarrow> db \<Rightarrow> uuid option \<Rightarrow> bool" where
  "owns_client uid s cid =
     list_ex (\<lambda>c. Some (c_id c) = cid \<and> c_user_id c = uid)
       (filter (users_can_view_their_own_clients uid) (clients s))"

definition users_can_view_categories_of_their_clients :: "uuid \<Rightarrow> db \<Rightarrow> client_category \<Rightarrow> bool" where
  "users_can_view_categories_of_their_clients uid s cc = owns_client uid s (Some (cc_client_id cc))"

definition users_can_create_categories_for_their_clients :: "uuid \<Rightarrow> db \<Rightarrow> uuid option \<Rightarrow> bool" where
  "users_can_create_categories_for_their_clients uid s new_client_id = owns_client uid s new_client_id"

subsection \<open>Policies of \<^verbatim>\<open>tasks\<close>\<close>

definition users_can_view_their_own_tasks :: "uuid \<Rightarrow> task \<Rightarrow> bool" where
  "users_can_view_their_own_tasks uid t = (uid = t_user_id t)"

definition users_can_create_tasks :: "uuid \<Rightarrow> uuid option \<Rightarrow> bool" where
  "users_can_create_tasks uid new_user_id = (Some uid = new_user_id)"

definition users_can_update_their_own_tasks_using :: "uuid \<Rightarrow> task \<Rightarrow> bool" where
  "users_can_update_their_own_tasks_using uid t = (uid = t_user_id t)"

definition users_can_update_their_own_tasks_check :: "uuid \<Rightarrow> uuid option \<Rightarrow> bool" where
  "users_can_update_their_own_tasks_check uid new_user_id = (Some uid = new_user_id)"

definition users_can_delete_their_own_tasks :: "uuid \<Rightarrow> task \<Rightarrow> bool" where
  "users_can_delete_their_own_tasks uid t = (uid = t_user_id t)"

subsection \<open>Insert policies of the children of \<^verbatim>\<open>tasks\<close>\<close>

definition owns_task :: "uuid \<Rightarrow> db \<Rightarrow> uuid option \<Rightarrow> bool" where
  "owns_task uid s tid =
     list_ex (\<lambda>t. Some (t_id t) = tid \<and> t_user_id t = uid)
       (filter (users_can_view_their_own_tasks uid) (tasks s))"

definition users_can_add_comments_to_their_tasks :: "uuid \<Rightarrow> db \<Rightarrow> uuid option \<Rightarrow> uuid option \<Rightarrow> bool" where
  "users_can_add_comments_to_their_tasks uid s new_task_id new_user_id =
     (owns_task uid s new_task_id \<and> Some uid = new_user_id)"

definition users_can_upload_attachments_to_their_tasks :: "uuid \<Rightarrow> db \<Rightarrow> uuid option \<Rightarrow> uuid option \<Rightarrow> bool" where
  "users_can_upload_attachments_to_their_tasks uid s new_task_id new_user_id =
     (owns_task uid s new_task_id \<and> new_user_id = Some uid)"


subsection \<open>Inserting into \<^verbatim>\<open>client_categories\<close>\<close>

record client_category_input =
  cci_id :: "uuid col"
  cci_client_id :: "uuid col"
  cci_category :: "string col"

definition category_tags :: "string list" where
  "category_tags = [''tasks'', ''gtm'', ''recurring'']"

text \<open>
  One row of an \<^verbatim>\<open>INSERT INTO client_categories\<close> by caller \<open>uid\<close>; \<open>gen\<close> is the
  value \<^verbatim>\<open>gen_random_uuid()\<close> returns for this row. PostgreSQL checks the row-level
  security policy first, then \<^verbatim>\<open>NOT NULL\<close> and \<^verbatim>\<open>CHECK\<close>, then the unique indexes
  (primary key, \<^verbatim>\<open>UNIQUE(client_id, category)\<close>), then the foreign key.
\<close>

definition insert_client_categories_row ::
  "uuid \<Rightarrow> uuid \<Rightarrow> client_category_input \<Rightarrow> db \<Rightarrow> pg_error + client_category \<times> db" where
  "insert_client_categories_row uid gen inp s =
     (let new_id = col_value (Some gen) (cci_id inp);
          new_client_id = col_value None (cci_client_id inp);
          new_category = col_value None (cci_category inp)
      in if \<not> users_can_create_categories_for_their_clients uid s new_client_id
         then Inl (Rls_violation ''client_categories'')
         else (case new_id of
             None \<Rightarrow> Inl (Not_null_violation ''client_categories'' ''id'')
           | Some i \<Rightarrow> (case new_client_id of
             None \<Rightarrow> Inl (Not_null_violation ''client_categories'' ''client_id'')
           | Some c \<Rightarrow> (case new_category of
             None \<Rightarrow> Inl (Not_null_violation ''client_categories'' ''category'')
           | Some g \<Rightarrow>
               if g \<notin> set category_tags
               then Inl (Check_violation ''client_categories_category_check'')
               else if i \<in> set (map cc_id (client_categories s))
               then Inl (Unique_violation ''client_categories_pkey'')
               else if (c, g) \<in> set (map (\<lambda>r. (cc_client_id r, cc_category r)) (client_categories s))
               then Inl (Unique_violation ''client_categories_client_id_category_key'')
               else if c \<notin> set (map c_id (clients s))
               then Inl (Foreign_key_violation ''client_categories_client_id_fkey'')
               else (let row = \<lparr>cc_id = i, cc_client_id = c, cc_category = g\<rparr>
                     in Inr (row, s\<lparr>client_categories := client_categories s @ [row]\<rparr>))))))"

text \<open>An \<^verbatim>\<open>INSERT ... VALUES\<close> of several rows: row by row, the first error ends it.\<close>

fun insert_client_categories ::
  "uuid \<Rightarrow> (uuid \<times> client_category_input) list \<Rightarrow> db \<Rightarrow> pg_error + db" where
  "insert_client_categories uid [] s = Inr s"
| "insert_client_categories uid ((gen, inp) # rows) s =
     (case insert_client_categories_row uid gen inp s of
        Inl e \<Rightarrow> Inl e
      | Inr (_, s') \<Rightarrow> insert_client_categories uid rows s')"

subsection \<open>The trigger \<^verbatim>\<open>create_categories_on_client_insert\<close>\<close>

text \<open>
  \<^verbatim>\<open>create_default_categories()\<close> is not \<^verbatim>\<open>SECURITY DEFINER\<close>: its insert runs as the
  caller of the client insert, under the policies of \<^verbatim>\<open>client_categories\<close>. \<open>new\<close> is
  the trigger's \<^verbatim>\<open>NEW\<close> row; \<open>gens\<close> are the three identifiers generated for the
  category rows. \<open>default_category_values\<close> is the \<^verbatim>\<open>VALUES\<close> list of the function's
  insert, each row with the identifier generated for it.
\<close>

definition default_category_values ::
  "uuid \<times> uuid \<times> uuid \<Rightarrow> client \<Rightarrow> (uuid \<times> client_category_input) list" where
  "default_category_values gens new =
     (case gens of (g1, g2, g3) \<Rightarrow>
        [(g1, \<lparr>cci_id = Omitted, cci_client_id = Val (c_id new), cci_category = Val ''tasks''\<rparr>),
         (g2, \<lparr>cci_id = Omitted, cci_client_id = Val (c_id new), cci_category = Val ''gtm''\<rparr>),
         (g3, \<lparr>cci_id = Omitted, cci_client_id = Val (c_id new), cci_category = Val ''recurring''\<rparr>)])"

definition create_default_categories :: "uuid \<Rightarrow> uuid \<times> uuid \<times> uuid \<Rightarrow> client \<Rightarrow> db \<Rightarrow> pg_error + db" where
  "create_default_categories uid gens new s =
     insert_client_categories uid (default_category_values gens new) s"

subsection \<open>Statements on \<^verbatim>\<open>clients\<close>\<close>

record client_input =
  ci_id :: "uuid col"
  ci_user_id :: "uuid col"
  ci_name :: "string col"

definition clients_not_null :: "uuid option \<Rightarrow> uuid option \<Rightarrow> string option \<Rightarrow> pg_error + client" where
  "clients_not_null i u n =
     (case i of
        None \<Rightarrow> Inl (Not_null_violation ''clients'' ''id'')
      | Some i' \<Rightarrow> (case u of
        None \<Rightarrow> Inl (Not_null_violation ''clients'' ''user_id'')
      | Some u' \<Rightarrow> (case n of
        None \<Rightarrow> Inl (Not_null_violation ''clients'' ''name'')
      | Some n' \<Rightarrow> Inr \<lparr>c_id = i', c_user_id = u', c_name = n'\<rparr>)))"

text \<open>
  The row insert of \<^verbatim>\<open>INSERT INTO clients\<close>, up to the point where the row is in the
  table and its foreign key to \<^verbatim>\<open>auth.users\<close> is checked; the row trigger comes next.
\<close>

definition insert_clients_row ::
  "uuid \<Rightarrow> uuid \<Rightarrow> client_input \<Rightarrow> db \<Rightarrow> pg_error + client \<times> db" where
  "insert_clients_row uid gen inp s =
     (let new_id = col_value (Some gen) (ci_id inp);
          new_user_id = col_value None (ci_user_id inp);
          new_name = col_value None (ci_name inp)
      in if \<not> users_can_create_clients uid new_user_id
         then Inl (Rls_violation ''clients'')
         else (case clients_not_null new_id new_user_id new_name of
             Inl e \<Rightarrow> Inl e
           | Inr row \<Rightarrow>
               if c_id row \<in> set (map c_id (clients s))
               then Inl (Unique_violation ''clients_pkey'')
               else if c_user_id row \<notin> set (auth_users s)
               then Inl (Foreign_key_violation ''clients_user_id_fkey'')
               else Inr (row, s\<lparr>clients := clients s @ [row]\<rparr>)))"

text \<open>
  \<^verbatim>\<open>INSERT INTO clients\<close> of one row, as the front end issues it: the row insert, then
  the \<^verbatim>\<open>AFTER INSERT ... FOR EACH ROW\<close> trigger on the database that holds the new row.
\<close>

definition insert_clients ::
  "uuid \<Rightarrow> uuid \<Rightarrow> uuid \<times> uuid \<times> uuid \<Rightarrow> client_input \<Rightarrow> db \<Rightarrow> pg_error + client \<times> db" where
  "insert_clients uid gen gens inp s =
     (case insert_clients_row uid gen inp s of
        Inl e \<Rightarrow> Inl e
      | Inr (new, s1) \<Rightarrow>
          (case create_default_categories uid gens new s1 of
             Inl e \<Rightarrow> Inl e
           | Inr s2 \<Rightarrow> Inr (new, s2)))"

definition select_clients :: "uuid \<Rightarrow> (client \<Rightarrow> bool) \<Rightarrow> db \<Rightarrow> pg_error + client list \<times> db" where
  "select_clients uid wh s =
     Inr (filter (\<lambda>c. users_can_view_their_own_clients uid c \<and> wh c) (clients s), s)"

text \<open>
  \<^verbatim>\<open>UPDATE\<close> of a table, row by row in table order: \<open>sel\<close> selects the rows the statement
  touches, \<open>new\<close> builds and checks the new version of a row against the other rows
  the table holds at that moment. The result lists the pairs of old and new row, and
  the new table.
\<close>

fun update_rows ::
  "('a \<Rightarrow> bool) \<Rightarrow> ('a list \<Rightarrow> 'a \<Rightarrow> pg_error + 'a) \<Rightarrow> 'a list \<Rightarrow> 'a list
     \<Rightarrow> pg_error + ('a \<times> 'a) list \<times> 'a list" where
  "update_rows sel new seen [] = Inr ([], seen)"
| "update_rows sel new seen (r # rest) =
     (if sel r then
        (case new (seen @ rest) r of
           Inl e \<Rightarrow> Inl e
         | Inr r' \<Rightarrow>
             (case update_rows sel new (seen @ [r']) rest of
                Inl e \<Rightarrow> Inl e
              | Inr (chg, tbl) \<Rightarrow> Inr ((r, r') # chg, tbl)))
      else update_rows sel new (seen @ [r]) rest)"

definition update_clients_row :: "uuid \<Rightarrow> client_input \<Rightarrow> client list \<Rightarrow> client \<Rightarrow> pg_error + client" where
  "update_clients_row uid upd others r =
     (let new_id = col_value (Some (c_id r)) (ci_id upd);
          new_user_id = col_value (Some (c_user_id r)) (ci_user_id upd);
          new_name = col_value (Some (c_name r)) (ci_name upd)
      in if \<not> users_can_update_their_own_clients_check uid new_user_id
         then Inl (Rls_violation ''clients'')
         else (case clients_not_null new_id new_user_id new_name of
             Inl e \<Rightarrow> Inl e
           | Inr row \<Rightarrow>
               if c_id row \<in> set (map c_id others)
               then Inl (Unique_violation ''clients_pkey'')
               else Inr row))"

text \<open>
  \<^verbatim>\<open>UPDATE clients SET ... WHERE wh\<close>. The caller sees a row through the select policy
  and the \<^verbatim>\<open>USING\<close> expression of the update policy. Both policies force the old and
  the new \<^verbatim>\<open>user_id\<close> to be the caller, so the foreign key to \<^verbatim>\<open>auth.users\<close> is never
  rechecked. The foreign keys that reference \<^verbatim>\<open>clients(id)\<close> are \<^verbatim>\<open>ON UPDATE NO ACTION\<close>:
  at the end of the statement a key that is gone while a row still references it is an
  error. No trigger of \<^verbatim>\<open>clients\<close> is declared for \<^verbatim>\<open>UPDATE\<close>.
\<close>

definition update_clients ::
  "uuid \<Rightarrow> (client \<Rightarrow> bool) \<Rightarrow> client_input \<Rightarrow> db \<Rightarrow> pg_error + client list \<times> db" where
  "update_clients uid wh upd s =
     (case update_rows
             (\<lambda>c. users_can_view_their_own_clients uid c
                  \<and> users_can_update_their_own_clients_using uid c \<and> wh c)
             (update_clients_row uid upd) [] (clients s) of
        Inl e \<Rightarrow> Inl e
      | Inr (chg, tbl) \<Rightarrow>
          if list_ex (\<lambda>(old, new). c_id old \<notin> set (map c_id tbl)
                 \<and> c_id old \<in> set (map cc_client_id (client_categories s))) chg
          then Inl (Foreign_key_violation ''client_categories_client_id_fkey'')
          else if list_ex (\<lambda>(old, new). c_id old \<notin> set (map c_id tbl)
                 \<and> Some (c_id old) \<in> set (map t_client_id (tasks s))) chg
          then Inl (Foreign_key_violation ''tasks_client_id_fkey'')
          else Inr (map snd chg, s\<lparr>clients := tbl\<rparr>))"

text \<open>
  \<^verbatim>\<open>DELETE FROM clients WHERE wh\<close>. The foreign keys of \<^verbatim>\<open>client_categories\<close> and
  \<^verbatim>\<open>tasks\<close> are \<^verbatim>\<open>ON DELETE CASCADE\<close>, and so are those of \<^verbatim>\<open>task_comments\<close> and
  \<^verbatim>\<open>task_attachments\<close> to \<^verbatim>\<open>tasks\<close>; the cascade is not subject to the policies.
  The statement returns the deleted client rows.
\<close>

definition delete_clients :: "uuid \<Rightarrow> (client \<Rightarrow> bool) \<Rightarrow> db \<Rightarrow> pg_error + client list \<times> db" where
  "delete_clients uid wh s =
     (let hit = (\<lambda>c. users_can_view_their_own_clients uid c
                   \<and> users_can_delete_their_own_clients uid c \<and> wh c);
          gone = filter hit (clients s);
          cids = map c_id gone;
          dead = (\<lambda>t. case t_client_id t of None \<Rightarrow> False | Some c \<Rightarrow> c \<in> set cids);
          tids = map t_id (filter dead (tasks s))
      in Inr (gone,
           s\<lparr>clients := filter (\<lambda>c. \<not> hit c) (clients s),
             client_categories := filter (\<lambda>g. cc_client_id g \<notin> set cids) (client_categories s),
             tasks := filter (\<lambda>t. \<not> dead t) (tasks s),
             task_comments := filter (\<lambda>m. tc_task_id m \<notin> set tids) (task_comments s),
             task_attachments := filter (\<lambda>a. ta_task_id a \<notin> set tids) (task_attachments s)\<rparr>))"


subsection \<open>Statements on \<^verbatim>\<open>tasks\<close>\<close>

record task_input =
  ti_id :: "uuid col"
  ti_user_id :: "uuid col"
  ti_client_id :: "uuid col"
  ti_category :: "string col"
  ti_name :: "string col"
  ti_status :: "string col"
  ti_priority :: "string col"

definition task_statuses :: "string list" where
  "task_statuses = [''Pending'', ''In-Progress'', ''Completed'']"

definition task_priorities :: "string list" where
  "task_priorities = [''Low'', ''Medium'', ''High'', ''Urgent'']"

text \<open>
  The constraints of a row of \<^verbatim>\<open>tasks\<close>: the \<^verbatim>\<open>NOT NULL\<close> columns (\<^verbatim>\<open>id\<close>,
  \<^verbatim>\<open>user_id\<close>, \<^verbatim>\<open>category\<close>, \<^verbatim>\<open>name\<close>, \<^verbatim>\<open>status\<close>), then the three \<^verbatim>\<open>CHECK\<close>
  constraints. \<^verbatim>\<open>client_id\<close> is nullable, and so is \<^verbatim>\<open>priority\<close>, which the later
  migration adds as \<^verbatim>\<open>text DEFAULT 'Medium' CHECK (priority IN (...))\<close>: its check
  passes on null.
\<close>

definition tasks_constraints ::
  "uuid option \<Rightarrow> uuid option \<Rightarrow> uuid option \<Rightarrow> string option \<Rightarrow> string option
     \<Rightarrow> string option \<Rightarrow> string option \<Rightarrow> pg_error + task" where
  "tasks_constraints i u c g n st p =
     (case i of
        None \<Rightarrow> Inl (Not_null_violation ''tasks'' ''id'')
      | Some i' \<Rightarrow> (case u of
        None \<Rightarrow> Inl (Not_null_violation ''tasks'' ''user_id'')
      | Some u' \<Rightarrow> (case g of
        None \<Rightarrow> Inl (Not_null_violation ''tasks'' ''category'')
      | Some g' \<Rightarrow> (case n of
        None \<Rightarrow> Inl (Not_null_violation ''tasks'' ''name'')
      | Some n' \<Rightarrow> (case st of
        None \<Rightarrow> Inl (Not_null_violation ''tasks'' ''status'')
      | Some st' \<Rightarrow>
          if g' \<notin> set category_tags then Inl (Check_violation ''tasks_category_check'')
          else if st' \<notin> set task_statuses then Inl (Check_violation ''tasks_status_check'')
          else if (case p of None \<Rightarrow> False | Some p' \<Rightarrow> p' \<notin> set task_priorities)
          then Inl (Check_violation ''tasks_priority_check'')
          else Inr \<lparr>t_id = i', t_user_id = u', t_client_id = c, t_category = g',
                 t_name = n', t_status = st', t_priority = p\<rparr>)))))"

text \<open>
  \<^verbatim>\<open>INSERT INTO tasks\<close> of one row by caller \<open>uid\<close>. The policy
  "Users can create tasks" is \<^verbatim>\<open>WITH CHECK (auth.uid() = user_id)\<close> and nothing else.
  The foreign key of \<^verbatim>\<open>client_id\<close> asks for a row of \<^verbatim>\<open>clients\<close> with that id,
  whoever owns it (a foreign key check is not subject to the policies).
\<close>

definition insert_tasks :: "uuid \<Rightarrow> uuid \<Rightarrow> task_input \<Rightarrow> db \<Rightarrow> pg_error + task \<times> db" where
  "insert_tasks uid gen inp s =
     (let new_id = col_value (Some gen) (ti_id inp);
          new_user_id = col_value None (ti_user_id inp);
          new_client_id = col_value None (ti_client_id inp);
          new_category = col_value (Some ''tasks'') (ti_category inp);
          new_name = col_value None (ti_name inp);
          new_status = col_value (Some ''Pending'') (ti_status inp);
          new_priority = col_value (Some ''Medium'') (ti_priority inp)
      in if \<not> users_can_create_tasks uid new_user_id
         then Inl (Rls_violation ''tasks'')
         else (case tasks_constraints new_id new_user_id new_client_id new_category
                      new_name new_status new_priority of
             Inl e \<Rightarrow> Inl e
           | Inr row \<Rightarrow>
               if t_id row \<in> set (map t_id (tasks s))
               then Inl (Unique_violation ''tasks_pkey'')
               else if t_user_id row \<notin> set (auth_users s)
               then Inl (Foreign_key_violation ''tasks_user_id_fkey'')
               else if (case t_client_id row of None \<Rightarrow> False
                        | Some c \<Rightarrow> c \<notin> set (map c_id (clients s)))
               then Inl (Foreign_key_violation ''tasks_client_id_fkey'')
               else Inr (row, s\<lparr>tasks := tasks s @ [row]\<rparr>)))"

definition select_tasks :: "uuid \<Rightarrow> (task \<Rightarrow> bool) \<Rightarrow> db \<Rightarrow> pg_error + task list \<times> db" where
  "select_tasks uid wh s =
     Inr (filter (\<lambda>t. users_can_view_their_own_tasks uid t \<and> wh t) (tasks s), s)"

definition update_tasks_row ::
  "uuid \<Rightarrow> task_input \<Rightarrow> uuid list \<Rightarrow> task list \<Rightarrow> task \<Rightarrow> pg_error + task" where
  "update_tasks_row uid upd client_ids others r =
     (let new_id = col_value (Some (t_id r)) (ti_id upd);
          new_user_id = col_value (Some (t_user_id r)) (ti_user_id upd);
          new_client_id = col_value (t_client_id r) (ti_client_id upd);
          new_category = col_value (Some (t_category r)) (ti_category upd);
          new_name = col_value (Some (t_name r)) (ti_name upd);
          new_status = col_value (Some (t_status r)) (ti_status upd);
          new_priority = col_value (t_priority r) (ti_priority upd)
      in if \<not> users_can_update_their_own_tasks_check uid new_user_id
         then Inl (Rls_violation ''tasks'')
         else (case tasks_constraints new_id new_user_id new_client_id new_category
                      new_name new_status new_priority of
             Inl e \<Rightarrow> Inl e
           | Inr row \<Rightarrow>
               if t_id row \<in> set (map t_id others)
               then Inl (Unique_violation ''tasks_pkey'')
               else if t_client_id row \<noteq> t_client_id r
                       \<and> (case t_client_id row of None \<Rightarrow> False | Some c \<Rightarrow> c \<notin> set client_ids)
               then Inl (Foreign_key_violation ''tasks_client_id_fkey'')
               else Inr row))"

text \<open>
  \<^verbatim>\<open>UPDATE tasks SET ... WHERE wh\<close>, as \<^verbatim>\<open>update_clients\<close>: the foreign key of
  \<^verbatim>\<open>client_id\<close> is rechecked when the column changes, and the foreign keys of
  \<^verbatim>\<open>task_comments\<close> and \<^verbatim>\<open>task_attachments\<close> to \<^verbatim>\<open>tasks(id)\<close> are
  \<^verbatim>\<open>ON UPDATE NO ACTION\<close>.
\<close>

definition update_tasks ::
  "uuid \<Rightarrow> (task \<Rightarrow> bool) \<Rightarrow> task_input \<Rightarrow> db \<Rightarrow> pg_error + task list \<times> db" where
  "update_tasks uid wh upd s =
     (case update_rows
             (\<lambda>t. users_can_view_their_own_tasks uid t
                  \<and> users_can_update_their_own_tasks_using uid t \<and> wh t)
             (update_tasks_row uid upd (map c_id (clients s))) [] (tasks s) of
        Inl e \<Rightarrow> Inl e
      | Inr (chg, tbl) \<Rightarrow>
          if list_ex (\<lambda>(old, new). t_id old \<notin> set (map t_id tbl)
                 \<and> t_id old \<in> set (map tc_task_id (task_comments s))) chg
          then Inl (Foreign_key_violation ''task_comments_task_id_fkey'')
          else if list_ex (\<lambda>(old, new). t_id old \<notin> set (map t_id tbl)
                 \<and> t_id old \<in> set (map ta_task_id (task_attachments s))) chg
          then Inl (Foreign_key_violation ''task_attachments_task_id_fkey'')
          else Inr (map snd chg, s\<lparr>tasks := tbl\<rparr>))"

text \<open>\<^verbatim>\<open>DELETE FROM tasks WHERE wh\<close>, cascading to the comments and attachments.\<close>

definition delete_tasks :: "uuid \<Rightarrow> (task \<Rightarrow> bool) \<Rightarrow> db \<Rightarrow> pg_error + task list \<times> db" where
  "delete_tasks uid wh s =
     (let hit = (\<lambda>t. users_can_view_their_own_tasks uid t
                   \<and> users_can_delete_their_own_tasks uid t \<and> wh t);
          gone = filter hit (tasks s);
          tids = map t_id gone
      in Inr (gone,
           s\<lparr>tasks := filter (\<lambda>t. \<not> hit t) (tasks s),
             task_comments := filter (\<lambda>m. tc_task_id m \<notin> set tids) (task_comments s),
             task_attachments := filter (\<lambda>a. ta_task_id a \<notin> set tids) (task_attachments s)\<rparr>))"

text \<open>The \<^verbatim>\<open>WHERE\<close> clauses the front end sends: \<^verbatim>\<open>.eq('id', x)\<close>.\<close>

definition client_id_eq :: "uuid \<Rightarrow> client \<Rightarrow> bool" where
  "client_id_eq x c = (c_id c = x)"

definition task_id_eq :: "uuid \<Rightarrow> task \<Rightarrow> bool" where
  "task_id_eq x t = (t_id t = x)"


section \<open>The event sync proxy\<close>

text \<open>
  \<^verbatim>\<open>supabase/functions/google-calendar-sync/index.ts\<close>: one HTTP handler over the table
  \<^verbatim>\<open>calendar_events\<close>. It queries the store with the service role key, which is not
  subject to row-level security; ownership is asserted by the \<^verbatim>\<open>.eq('user_id', user.id)\<close>
  filters of the handler itself. The foreign key of \<^verbatim>\<open>user_id\<close> to \<^verbatim>\<open>auth.users\<close> is
  not modelled: the user has just been returned by the identity provider.
\<close>

record calendar_event =
  e_id :: uuid
  e_google_event_id :: "string option"
  e_title :: string
  e_description :: "string option"
  e_date :: int
  e_time :: "string option"
  e_user_id :: uuid
  e_created_at :: "string option"
  e_updated_at :: "string option"

text \<open>The request body, typed as the handler's interface \<^verbatim>\<open>CalendarEvent\<close> declares it.\<close>

record event_body =
  b_title :: string
  b_description :: string
  b_date :: string
  b_time :: string

text \<open>
  What the handler reads of a request: the method, the \<^verbatim>\<open>Authorization\<close> header, the
  query parameters \<^verbatim>\<open>action\<close> and \<^verbatim>\<open>id\<close> (\<open>None\<close> when absent), and the outcome
  of \<^verbatim>\<open>req.json()\<close> (\<open>None\<close> when the body does not parse and the call throws).
\<close>

record http_request =
  req_method :: string
  req_authorization :: "string option"
  req_action :: "string option"
  req_id :: "string option"
  req_json :: "event_body option"

text \<open>
  What the handler is given from outside: the identity provider (\<^verbatim>\<open>supabase.auth.getUser\<close>
  returns the user, here its id, and an error), the input functions of the column types
  \<^verbatim>\<open>uuid\<close> and \<^verbatim>\<open>date\<close> of the store, the identifier \<^verbatim>\<open>gen_random_uuid()\<close> yields
  for a created row, and the two clocks.
\<close>

record env =
  get_user :: "string \<Rightarrow> uuid option \<times> string option"
  uuid_in :: "string \<Rightarrow> uuid option"
  date_in :: "string \<Rightarrow> int option"
  gen_random_uuid :: uuid
  db_now :: string
  js_now :: string

datatype store_error =
    Invalid_uuid string
  | Invalid_date string
  | Duplicate_key string
  | Not_a_single_row

datatype thrown = Type_error | Syntax_error | Store_error store_error

datatype response_body =
    No_body
  | Error_body string
  | Error_message thrown
  | Events_body "calendar_event list"
  | Event_body calendar_event
  | Success_body

record http_response =
  status :: nat
  body :: response_body

datatype store_call =
    Select_events uuid
  | Insert_event uuid event_body
  | Update_event string uuid event_body
  | Delete_event string uuid

text \<open>What the handler does besides answering, in order.\<close>

datatype effect =
    Auth_get_user string "uuid option \<times> string option"
  | Store_call store_call

text \<open>JavaScript's \<^verbatim>\<open>s.replace(pat, rep)\<close> with a string pattern: the first occurrence.\<close>

fun replace_first :: "string \<Rightarrow> string \<Rightarrow> string \<Rightarrow> string" where
  "replace_first pat rep [] = (if pat = [] then rep else [])"
| "replace_first pat rep (c # cs) =
     (if take (length pat) (c # cs) = pat then rep @ drop (length pat) (c # cs)
      else c # replace_first pat rep cs)"

text \<open>
  JavaScript's truthiness of a value that is null or a string: \<^verbatim>\<open>!x\<close> holds for null
  and for the empty string; otherwise the string is there to use.
\<close>

definition truthy :: "string option \<Rightarrow> string option" where
  "truthy x = (case x of None \<Rightarrow> None | Some v \<Rightarrow> if v = [] then None else Some v)"

text \<open>
  \<^verbatim>\<open>.from('calendar_events').select('*').eq('user_id', uid).order('date', {ascending: true})\<close>.
  The order of events of one date is not specified by the store; the model keeps the
  table order.
\<close>

definition store_list :: "env \<Rightarrow> uuid \<Rightarrow> calendar_event list \<Rightarrow> store_error + calendar_event list" where
  "store_list ev uid evs = Inr (sort_key e_date (filter (\<lambda>e. e_user_id e = uid) evs))"

text \<open>\<^verbatim>\<open>.insert([{...}]).select().single()\<close>: the one inserted row comes back.\<close>

definition store_create ::
  "env \<Rightarrow> uuid \<Rightarrow> event_body \<Rightarrow> calendar_event list
     \<Rightarrow> store_error + calendar_event \<times> calendar_event list" where
  "store_create ev uid b evs =
     (case date_in ev (b_date b) of
        None \<Rightarrow> Inl (Invalid_date (b_date b))
      | Some d \<Rightarrow>
          (let row = \<lparr>e_id = gen_random_uuid ev, e_google_event_id = None,
                      e_title = b_title b, e_description = Some (b_description b),
                      e_date = d, e_time = Some (b_time b), e_user_id = uid,
                      e_created_at = Some (db_now ev), e_updated_at = Some (db_now ev)\<rparr>
           in if e_id row \<in> set (map e_id evs)
              then Inl (Duplicate_key ''calendar_events_pkey'')
              else Inr (row, evs @ [row])))"

text \<open>
  \<^verbatim>\<open>.update({...}).eq('id', eventId).eq('user_id', uid).select().single()\<close>: one store
  call. The rows that match both filters are updated and returned; \<^verbatim>\<open>.single()\<close> turns
  every result that is not exactly one row into an error (PostgREST's PGRST116). The
  payload's date is read as a \<^verbatim>\<open>date\<close> only for a row that is updated: when no row
  matches, the call ends in the \<^verbatim>\<open>.single()\<close> error whatever the body holds.
\<close>

definition store_update ::
  "env \<Rightarrow> string \<Rightarrow> uuid \<Rightarrow> event_body \<Rightarrow> calendar_event list
     \<Rightarrow> store_error + calendar_event \<times> calendar_event list" where
  "store_update ev event_id uid b evs =
     (case uuid_in ev event_id of
        None \<Rightarrow> Inl (Invalid_uuid event_id)
      | Some i \<Rightarrow>
          (let hit = (\<lambda>e. e_id e = i \<and> e_user_id e = uid)
           in if filter hit evs = [] then Inl Not_a_single_row
              else (case date_in ev (b_date b) of
                 None \<Rightarrow> Inl (Invalid_date (b_date b))
               | Some d \<Rightarrow>
                   (let evs' = map (\<lambda>e. if hit e
                                         then e\<lparr>e_title := b_title b,
                                                e_description := Some (b_description b),
                                                e_date := d, e_time := Some (b_time b),
                                                e_updated_at := Some (js_now ev)\<rparr>
                                         else e) evs
                    in (case filter hit evs' of
                          [row] \<Rightarrow> Inr (row, evs')
                        | _ \<Rightarrow> Inl Not_a_single_row)))))"

text \<open>\<^verbatim>\<open>.delete().eq('id', eventId).eq('user_id', uid)\<close>: no row is asked back.\<close>

definition store_delete ::
  "env \<Rightarrow> string \<Rightarrow> uuid \<Rightarrow> calendar_event list \<Rightarrow> store_error + calendar_event list" where
  "store_delete ev event_id uid evs =
     (case uuid_in ev event_id of
        None \<Rightarrow> Inl (Invalid_uuid event_id)
      | Some i \<Rightarrow> Inr (filter (\<lambda>e. \<not> (e_id e = i \<and> e_user_id e = uid)) evs))"

text \<open>
  The \<^verbatim>\<open>switch (action)\<close> of the handler for the authenticated user \<open>uid\<close>. \<open>Inl\<close> is a
  value thrown inside the \<^verbatim>\<open>try\<close> block. The result carries the store after the call
  and the store calls made.
\<close>

definition dispatch ::
  "env \<Rightarrow> uuid \<Rightarrow> http_request \<Rightarrow> calendar_event list
     \<Rightarrow> (thrown + http_response) \<times> calendar_event list \<times> effect list" where
  "dispatch ev uid req evs =
     (if req_action req = Some ''list'' then
        (case store_list ev uid evs of
           Inl e \<Rightarrow> (Inl (Store_error e), evs, [Store_call (Select_events uid)])
         | Inr events \<Rightarrow>
             (Inr \<lparr>status = 200, body = Events_body events\<rparr>, evs,
              [Store_call (Select_events uid)]))
      else if req_action req = Some ''create'' then
        (case req_json req of
           None \<Rightarrow> (Inl Syntax_error, evs, [])
         | Some b \<Rightarrow>
             (case store_create ev uid b evs of
                Inl e \<Rightarrow> (Inl (Store_error e), evs, [Store_call (Insert_event uid b)])
              | Inr (event, evs') \<Rightarrow>
                  (Inr \<lparr>status = 200, body = Event_body event\<rparr>, evs',
                   [Store_call (Insert_event uid b)])))
      else if req_action req = Some ''update'' then
        (case req_json req of
           None \<Rightarrow> (Inl Syntax_error, evs, [])
         | Some b \<Rightarrow>
             (case truthy (req_id req) of
                None \<Rightarrow>
                  (Inr \<lparr>status = 400, body = Error_body ''Event ID required''\<rparr>, evs, [])
              | Some event_id \<Rightarrow>
                  (case store_update ev event_id uid b evs of
                     Inl e \<Rightarrow>
                       (Inl (Store_error e), evs, [Store_call (Update_event event_id uid b)])
                   | Inr (event, evs') \<Rightarrow>
                       (Inr \<lparr>status = 200, body = Event_body event\<rparr>, evs',
                        [Store_call (Update_event event_id uid b)]))))
      else if req_action req = Some ''delete'' then
        (case truthy (req_id req) of
           None \<Rightarrow>
             (Inr \<lparr>status = 400, body = Error_body ''Event ID required''\<rparr>, evs, [])
         | Some event_id \<Rightarrow>
             (case store_delete ev event_id uid evs of
                Inl e \<Rightarrow> (Inl (Store_error e), evs, [Store_call (Delete_event event_id uid)])
              | Inr evs' \<Rightarrow>
                  (Inr \<lparr>status = 200, body = Success_body\<rparr>, evs',
                   [Store_call (Delete_event event_id uid)])))
      else (Inr \<lparr>status = 400, body = Error_body ''Invalid action''\<rparr>, evs, []))"

text \<open>
  The handler: the preflight answer, then inside \<^verbatim>\<open>try\<close> the bearer token, the identity
  provider and the dispatch; \<^verbatim>\<open>catch\<close> turns a thrown value into a 500 response with
  its message. \<^verbatim>\<open>authHeader.replace\<close> throws a \<^verbatim>\<open>TypeError\<close> when the header is absent.
  The CORS and content-type headers, the same on every response, are left out.
\<close>

definition handler ::
  "env \<Rightarrow> http_request \<Rightarrow> calendar_event list
     \<Rightarrow> http_response \<times> calendar_event list \<times> effect list" where
  "handler ev req evs =
     (if req_method req = ''OPTIONS'' then (\<lparr>status = 200, body = No_body\<rparr>, evs, [])
      else (case req_authorization req of
         None \<Rightarrow> (\<lparr>status = 500, body = Error_message Type_error\<rparr>, evs, [])
       | Some auth_header \<Rightarrow>
           (let token = replace_first ''Bearer '' [] auth_header;
                looked_up = get_user ev token
            in (case looked_up of
                  (_, Some auth_error) \<Rightarrow>
                    (\<lparr>status = 401, body = Error_body ''Unauthorized''\<rparr>, evs,
                     [Auth_get_user token looked_up])
                | (None, None) \<Rightarrow>
                    (\<lparr>status = 401, body = Error_body ''Unauthorized''\<rparr>, evs,
                     [Auth_get_user token looked_up])
                | (Some uid, None) \<Rightarrow>
                    (case dispatch ev uid req evs of
                       (Inl err, evs', calls) \<Rightarrow>
                         (\<lparr>status = 500, body = Error_message err\<rparr>, evs',
                          Auth_get_user token looked_up # calls)
                     | (Inr response, evs', calls) \<Rightarrow>
                         (response, evs', Auth_get_user token looked_up # calls))))))"


section \<open>Example stores and requests\<close>

text \<open>
  Two users, 1 and 2. User 1 has created the client "Acme" (id 10), which the trigger
  has given its three categories (ids 11, 12, 13).
\<close>

definition demo_client_input :: client_input where
  "demo_client_input = \<lparr>ci_id = Omitted, ci_user_id = Val 1, ci_name = Val ''Acme''\<rparr>"

definition demo_client :: client where
  "demo_client = \<lparr>c_id = 10, c_user_id = 1, c_name = ''Acme''\<rparr>"

definition demo_db :: db where
  "demo_db = \<lparr>auth_users = [1, 2],
     clients = [\<lparr>c_id = 10, c_user_id = 1, c_name = ''Acme''\<rparr>],
     client_categories =
       [\<lparr>cc_id = 11, cc_client_id = 10, cc_category = ''tasks''\<rparr>,
        \<lparr>cc_id = 12, cc_client_id = 10, cc_category = ''gtm''\<rparr>,
        \<lparr>cc_id = 13, cc_client_id = 10, cc_category = ''recurring''\<rparr>],
     tasks = [], task_comments = [], task_attachments = []\<rparr>"

text \<open>The same store with a task of user 1 for that client, a comment and an attachment.\<close>

definition demo_task :: task where
  "demo_task = \<lparr>t_id = 20, t_user_id = 1, t_client_id = Some 10, t_category = ''gtm'',
     t_name = ''Launch'', t_status = ''Pending'', t_priority = Some ''High''\<rparr>"

definition demo_db_busy :: db where
  "demo_db_busy = demo_db\<lparr>tasks := [demo_task],
     task_comments := [\<lparr>tc_id = 30, tc_task_id = 20, tc_user_id = 1\<rparr>],
     task_attachments := [\<lparr>ta_id = 40, ta_task_id = 20, ta_user_id = 1\<rparr>]\<rparr>"

text \<open>A task row as user 2 sends it, naming the client of user 1.\<close>

definition demo_task_input :: task_input where
  "demo_task_input = \<lparr>ti_id = Omitted, ti_user_id = Val 2, ti_client_id = Val 10,
     ti_category = Omitted, ti_name = Val ''Borrowed'', ti_status = Omitted,
     ti_priority = Omitted\<rparr>"

text \<open>What the three \<^verbatim>\<open>CHECK\<close> constraints of \<^verbatim>\<open>tasks\<close> say of a stored row.\<close>

definition tasks_row_valid :: "task \<Rightarrow> bool" where
  "tasks_row_valid t = (t_status t \<in> set task_statuses \<and> t_category t \<in> set category_tags
     \<and> (case t_priority t of None \<Rightarrow> True | Some p \<Rightarrow> p \<in> set task_priorities))"

text \<open>
  An identity provider that knows the token \<^verbatim>\<open>good\<close> of user 1, a store that reads
  \<^verbatim>\<open>e1\<close> and \<^verbatim>\<open>e2\<close> as identifiers and one date, and an event table with one event
  (id 100) of user 2.
\<close>

definition demo_env :: env where
  "demo_env = \<lparr>get_user = (\<lambda>token. if token = ''good'' then (Some 1, None)
                                    else (None, Some ''invalid JWT'')),
     uuid_in = (\<lambda>x. if x = ''e1'' then Some 100 else if x = ''e2'' then Some 200 else None),
     date_in = (\<lambda>x. if x = ''2025-12-09'' then Some 20431 else None),
     gen_random_uuid = 300, db_now = ''t0'', js_now = ''t1''\<rparr>"

definition demo_body :: event_body where
  "demo_body = \<lparr>b_title = ''Review'', b_description = ''weekly'', b_date = ''2025-12-09'',
     b_time = ''10:00''\<rparr>"

definition demo_events :: "calendar_event list" where
  "demo_events = [\<lparr>e_id = 100, e_google_event_id = None, e_title = ''Theirs'',
     e_description = Some [], e_date = 20400, e_time = Some [], e_user_id = 2,
     e_created_at = Some ''t0'', e_updated_at = Some ''t0''\<rparr>]"

definition demo_request ::
  "string \<Rightarrow> string \<Rightarrow> string option \<Rightarrow> event_body option \<Rightarrow> http_request" where
  "demo_request token action event_id json =
     \<lparr>req_method = ''POST'', req_authorization = Some (''Bearer '' @ token),
      req_action = Some action, req_id = event_id, req_json = json\<rparr>"

section \<open>Properties of the entity store\<close>

subsection \<open>Auxiliary facts\<close>

lemma filter_none: "\<forall>x \<in> set xs. \<not> P x \<Longrightarrow> filter P xs = []"
  by (induction xs) auto

lemma filter_all: "\<forall>x \<in> set xs. P x \<Longrightarrow> filter P xs = xs"
  by (induction xs) auto

lemma update_rows_none:
  "\<forall>r \<in> set rows. \<not> sel r \<Longrightarrow> update_rows sel new seen rows = Inr ([], seen @ rows)"
  by (induction rows arbitrary: seen) auto

lemma update_rows_invariant:
  assumes "update_rows sel new seen rows = Inr (chg, tbl)"
    and "\<forall>x \<in> set seen. P x" and "\<forall>x \<in> set rows. P x"
    and "\<And>others r r'. new others r = Inr r' \<Longrightarrow> P r'"
  shows "\<forall>x \<in> set tbl. P x"
  using assms
proof (induction rows arbitrary: seen chg tbl)
  case Nil
  then show ?case by simp
next
  case (Cons r rows)
  show ?case
  proof (cases "sel r")
    case True
    with Cons.prems(1) obtain r' chg' where n: "new (seen @ rows) r = Inr r'"
      and rec: "update_rows sel new (seen @ [r']) rows = Inr (chg', tbl)"
      by (auto split: sum.splits prod.splits)
    have "\<forall>x \<in> set (seen @ [r']). P x"
      using Cons.prems(2) Cons.prems(4)[OF n] by simp
    with Cons.IH[OF rec] Cons.prems(3,4) show ?thesis by simp
  next
    case False
    with Cons.prems(1) have rec: "update_rows sel new (seen @ [r]) rows = Inr (chg, tbl)"
      by simp
    have "\<forall>x \<in> set (seen @ [r]). P x"
      using Cons.prems(2,3) by simp
    with Cons.IH[OF rec] Cons.prems(3,4) show ?thesis by simp
  qed
qed

lemma owns_client_categories_irrelevant [simp]:
  "owns_client uid (s\<lparr>client_categories := cs\<rparr>) c = owns_client uid s c"
  by (simp add: owns_client_def)

lemmas client_insert_defs =
  request_def insert_clients_def insert_clients_row_def clients_not_null_def
  create_default_categories_def default_category_values_def
  insert_client_categories_row_def
  users_can_create_clients_def users_can_create_categories_for_their_clients_def
  owns_client_def users_can_view_their_own_clients_def category_tags_def Let_def

lemmas task_insert_defs =
  request_def insert_tasks_def tasks_constraints_def users_can_create_tasks_def
  category_tags_def task_statuses_def task_priorities_def Let_def

subsection \<open>The category rows of a client\<close>

lemma insert_client_categories_append:
  "insert_client_categories uid (pre @ rest) s =
     (case insert_client_categories uid pre s of
        Inl e \<Rightarrow> Inl e
      | Inr s' \<Rightarrow> insert_client_categories uid rest s')"
  by (induction pre arbitrary: s) (auto split: sum.splits)

lemma category_row_inserted:
  assumes "insert_client_categories_row uid gen
             \<lparr>cci_id = Omitted, cci_client_id = Val c, cci_category = Val g\<rparr> s = Inr (row, s')"
  shows "row = \<lparr>cc_id = gen, cc_client_id = c, cc_category = g\<rparr>"
    and "s' = s\<lparr>client_categories := client_categories s @ [row]\<rparr>"
    and "owns_client uid s (Some c)"
  using assms
  by (auto simp: insert_client_categories_row_def users_can_create_categories_for_their_clients_def
        Let_def split: if_splits)

lemma category_row_succeeds:
  assumes "owns_client uid s (Some c)" "g \<in> set category_tags"
    "gen \<notin> set (map cc_id (client_categories s))"
    "(c, g) \<notin> set (map (\<lambda>r. (cc_client_id r, cc_category r)) (client_categories s))"
    "c \<in> set (map c_id (clients s))"
  shows "insert_client_categories_row uid gen
           \<lparr>cci_id = Omitted, cci_client_id = Val c, cci_category = Val g\<rparr> s
         = Inr (\<lparr>cc_id = gen, cc_client_id = c, cc_category = g\<rparr>,
                s\<lparr>client_categories := client_categories s
                     @ [\<lparr>cc_id = gen, cc_client_id = c, cc_category = g\<rparr>]\<rparr>)"
  using assms
  by (simp add: insert_client_categories_row_def users_can_create_categories_for_their_clients_def
        Let_def)

lemma create_default_categories_result:
  assumes "create_default_categories uid (g1, g2, g3) new s = Inr s'"
  shows "s' = s\<lparr>client_categories := client_categories s @
           [\<lparr>cc_id = g1, cc_client_id = c_id new, cc_category = ''tasks''\<rparr>,
            \<lparr>cc_id = g2, cc_client_id = c_id new, cc_category = ''gtm''\<rparr>,
            \<lparr>cc_id = g3, cc_client_id = c_id new, cc_category = ''recurring''\<rparr>]\<rparr>"
proof -
  let ?inp = "\<lambda>t. \<lparr>cci_id = Omitted, cci_client_id = Val (c_id new), cci_category = Val t\<rparr>"
  from assms obtain r1 s1
    where 1: "insert_client_categories_row uid g1 (?inp ''tasks'') s = Inr (r1, s1)"
    by (auto simp: create_default_categories_def default_category_values_def split: sum.splits)
  from assms 1 obtain r2 s2
    where 2: "insert_client_categories_row uid g2 (?inp ''gtm'') s1 = Inr (r2, s2)"
    by (auto simp: create_default_categories_def default_category_values_def split: sum.splits)
  from assms 1 2 obtain r3 s3
    where 3: "insert_client_categories_row uid g3 (?inp ''recurring'') s2 = Inr (r3, s3)"
    by (auto simp: create_default_categories_def default_category_values_def split: sum.splits)
  from assms 1 2 3 have "s' = s3"
    by (simp add: create_default_categories_def default_category_values_def)
  with category_row_inserted(1,2)[OF 1] category_row_inserted(1,2)[OF 2]
    category_row_inserted(1,2)[OF 3]
  show ?thesis by simp
qed

lemma create_default_categories_owner:
  assumes "create_default_categories uid (g1, g2, g3) new s = Inr s'"
  shows "owns_client uid s (Some (c_id new))"
proof -
  let ?inp = "\<lambda>t. \<lparr>cci_id = Omitted, cci_client_id = Val (c_id new), cci_category = Val t\<rparr>"
  from assms obtain r1 s1
    where 1: "insert_client_categories_row uid g1 (?inp ''tasks'') s = Inr (r1, s1)"
    by (auto simp: create_default_categories_def default_category_values_def split: sum.splits)
  then show ?thesis by (rule category_row_inserted(3))
qed

lemma create_default_categories_succeeds:
  assumes own: "owns_client uid s (Some c)"
    and ref: "c \<in> set (map c_id (clients s))"
    and new: "c \<notin> set (map cc_client_id (client_categories s))"
    and dist: "distinct [g1, g2, g3]"
    and fresh: "set [g1, g2, g3] \<inter> set (map cc_id (client_categories s)) = {}"
    and id: "c_id new = c"
  shows "create_default_categories uid (g1, g2, g3) new s =
         Inr (s\<lparr>client_categories := client_categories s @
           [\<lparr>cc_id = g1, cc_client_id = c, cc_category = ''tasks''\<rparr>,
            \<lparr>cc_id = g2, cc_client_id = c, cc_category = ''gtm''\<rparr>,
            \<lparr>cc_id = g3, cc_client_id = c, cc_category = ''recurring''\<rparr>]\<rparr>)"
proof -
  have key: "\<And>g. (c, g) \<notin> set (map (\<lambda>r. (cc_client_id r, cc_category r)) (client_categories s))"
    using new by force
  let ?r1 = "\<lparr>cc_id = g1, cc_client_id = c, cc_category = ''tasks''\<rparr>"
  let ?r2 = "\<lparr>cc_id = g2, cc_client_id = c, cc_category = ''gtm''\<rparr>"
  let ?r3 = "\<lparr>cc_id = g3, cc_client_id = c, cc_category = ''recurring''\<rparr>"
  let ?s1 = "s\<lparr>client_categories := client_categories s @ [?r1]\<rparr>"
  let ?s2 = "?s1\<lparr>client_categories := client_categories ?s1 @ [?r2]\<rparr>"
  have 1: "insert_client_categories_row uid g1
             \<lparr>cci_id = Omitted, cci_client_id = Val c, cci_category = Val ''tasks''\<rparr> s
           = Inr (?r1, ?s1)"
    using own ref fresh key by (intro category_row_succeeds) (auto simp: category_tags_def)
  have 2: "insert_client_categories_row uid g2
             \<lparr>cci_id = Omitted, cci_client_id = Val c, cci_category = Val ''gtm''\<rparr> ?s1
           = Inr (?r2, ?s2)"
    using own ref fresh key dist by (intro category_row_succeeds) (auto simp: category_tags_def)
  have 3: "insert_client_categories_row uid g3
             \<lparr>cci_id = Omitted, cci_client_id = Val c, cci_category = Val ''recurring''\<rparr> ?s2
           = Inr (?r3, ?s2\<lparr>client_categories := client_categories ?s2 @ [?r3]\<rparr>)"
    using own ref fresh key dist by (intro category_row_succeeds) (auto simp: category_tags_def)
  show ?thesis
    using 1 2 3 id
    by (simp add: create_default_categories_def default_category_values_def)
qed

lemma insert_clients_row_result:
  assumes "insert_clients_row uid gen inp s = Inr (new, s1)"
  shows "s1 = s\<lparr>clients := clients s @ [new]\<rparr>"
    and "ci_user_id inp = Val uid" and "c_user_id new = uid"
    and "ci_name inp = Val (c_name new)"
    and "uid \<in> set (auth_users s)"
  using assms
  by (auto simp: insert_clients_row_def users_can_create_clients_def clients_not_null_def
        Let_def split: if_splits option.splits sum.splits col.splits elim: col_value.elims)

lemma insert_clients_result:
  assumes "request (insert_clients uid gen (g1, g2, g3) inp) s = (Inr a, s1)"
  shows "insert_clients_row uid gen inp s = Inr (a, s\<lparr>clients := clients s @ [a]\<rparr>)"
    and "create_default_categories uid (g1, g2, g3) a (s\<lparr>clients := clients s @ [a]\<rparr>) = Inr s1"
proof -
  from assms obtain s0 where r: "insert_clients_row uid gen inp s = Inr (a, s0)"
    and t: "create_default_categories uid (g1, g2, g3) a s0 = Inr s1"
    by (auto simp: request_def insert_clients_def split: sum.splits prod.splits)
  from insert_clients_row_result(1)[OF r] r t
  show "insert_clients_row uid gen inp s = Inr (a, s\<lparr>clients := clients s @ [a]\<rparr>)"
    and "create_default_categories uid (g1, g2, g3) a (s\<lparr>clients := clients s @ [a]\<rparr>) = Inr s1"
    by simp_all
qed

lemma demo_db_created:
  "request (insert_clients 1 10 (11, 12, 13) demo_client_input) (empty_db [1, 2])
     = (Inr demo_client, demo_db)"
  by (simp add: client_insert_defs empty_db_def demo_db_def demo_client_def demo_client_input_def)

lemma update_clients_keeps_categories:
  "client_categories (snd (request (update_clients uid wh upd) s)) = client_categories s"
  by (auto simp: request_def update_clients_def split: sum.splits prod.splits)

subsection \<open>Rows of other identities\<close>

lemma foreign_clients_untouched:
  assumes "\<forall>c \<in> set (clients s). wh c \<longrightarrow> c_user_id c \<noteq> uid"
  shows "request (select_clients uid wh) s = (Inr [], s)"
    and "request (update_clients uid wh upd) s = (Inr [], s)"
    and "request (delete_clients uid wh) s = (Inr [], s)"
proof -
  have none: "\<forall>c \<in> set (clients s). \<not> (users_can_view_their_own_clients uid c \<and> wh c)"
    using assms by (auto simp: users_can_view_their_own_clients_def)
  show "request (select_clients uid wh) s = (Inr [], s)"
    using none by (simp add: request_def select_clients_def filter_none)
  have "update_rows (\<lambda>c. users_can_view_their_own_clients uid c
                  \<and> users_can_update_their_own_clients_using uid c \<and> wh c)
             (update_clients_row uid upd) [] (clients s) = Inr ([], [] @ clients s)"
    using none by (intro update_rows_none) auto
  then show "request (update_clients uid wh upd) s = (Inr [], s)"
    by (simp add: request_def update_clients_def)
  have gone: "filter (\<lambda>c. users_can_view_their_own_clients uid c
                   \<and> users_can_delete_their_own_clients uid c \<and> wh c) (clients s) = []"
    using none by (intro filter_none) auto
  have kept: "filter (\<lambda>c. \<not> (users_can_view_their_own_clients uid c
                   \<and> users_can_delete_their_own_clients uid c \<and> wh c)) (clients s) = clients s"
    using none by (intro filter_all) auto
  show "request (delete_clients uid wh) s = (Inr [], s)"
    unfolding request_def delete_clients_def Let_def gone kept
    by (simp add: option.case_eq_if)
qed

lemma foreign_tasks_untouched:
  assumes "\<forall>t \<in> set (tasks s). wh t \<longrightarrow> t_user_id t \<noteq> uid"
  shows "request (select_tasks uid wh) s = (Inr [], s)"
    and "request (update_tasks uid wh upd) s = (Inr [], s)"
    and "request (delete_tasks uid wh) s = (Inr [], s)"
proof -
  have none: "\<forall>t \<in> set (tasks s). \<not> (users_can_view_their_own_tasks uid t \<and> wh t)"
    using assms by (auto simp: users_can_view_their_own_tasks_def)
  show "request (select_tasks uid wh) s = (Inr [], s)"
    using none by (simp add: request_def select_tasks_def filter_none)
  have "update_rows (\<lambda>t. users_can_view_their_own_tasks uid t
                  \<and> users_can_update_their_own_tasks_using uid t \<and> wh t)
             (update_tasks_row uid upd (map c_id (clients s))) [] (tasks s) = Inr ([], [] @ tasks s)"
    using none by (intro update_rows_none) auto
  then show "request (update_tasks uid wh upd) s = (Inr [], s)"
    by (simp add: request_def update_tasks_def)
  have gone: "filter (\<lambda>t. users_can_view_their_own_tasks uid t
                   \<and> users_can_delete_their_own_tasks uid t \<and> wh t) (tasks s) = []"
    using none by (intro filter_none) auto
  have kept: "filter (\<lambda>t. \<not> (users_can_view_their_own_tasks uid t
                   \<and> users_can_delete_their_own_tasks uid t \<and> wh t)) (tasks s) = tasks s"
    using none by (intro filter_all) auto
  show "request (delete_tasks uid wh) s = (Inr [], s)"
    unfolding request_def delete_tasks_def Let_def gone kept by simp
qed

subsection \<open>The check constraints of \<^verbatim>\<open>tasks\<close>\<close>

lemma tasks_constraints_valid:
  "tasks_constraints i u c g n st p = Inr row \<Longrightarrow> tasks_row_valid row"
  by (auto simp: tasks_constraints_def tasks_row_valid_def split: option.splits if_splits)

lemma update_tasks_row_valid:
  "update_tasks_row uid upd cids others r = Inr r' \<Longrightarrow> tasks_row_valid r'"
  by (auto simp: update_tasks_row_def Let_def split: if_splits sum.splits
        dest: tasks_constraints_valid)

text \<open>
  Every statement that writes \<^verbatim>\<open>tasks\<close> keeps the rows within the three check
  constraints: status and category in their sets, priority in its set or null.
\<close>

lemma task_writes_keep_rows_valid:
  assumes "\<forall>t \<in> set (tasks s). tasks_row_valid t"
  shows "\<forall>t \<in> set (tasks (snd (request (insert_tasks uid gen inp) s))). tasks_row_valid t"
    and "\<forall>t \<in> set (tasks (snd (request (update_tasks uid wh upd) s))). tasks_row_valid t"
    and "\<forall>t \<in> set (tasks (snd (request (delete_tasks uid wh) s))). tasks_row_valid t"
    and "\<forall>t \<in> set (tasks (snd (request (delete_clients uid wc) s))). tasks_row_valid t"
proof -
  show "\<forall>t \<in> set (tasks (snd (request (insert_tasks uid gen inp) s))). tasks_row_valid t"
    using assms
    by (auto simp: request_def insert_tasks_def Let_def split: sum.splits if_splits prod.splits
          dest: tasks_constraints_valid)
  show "\<forall>t \<in> set (tasks (snd (request (update_tasks uid wh upd) s))). tasks_row_valid t"
  proof (cases "update_tasks uid wh upd s")
    case (Inl e)
    with assms show ?thesis by (simp add: request_def)
  next
    case (Inr res)
    then obtain chg tbl where u: "update_rows
             (\<lambda>t. users_can_view_their_own_tasks uid t
                  \<and> users_can_update_their_own_tasks_using uid t \<and> wh t)
             (update_tasks_row uid upd (map c_id (clients s))) [] (tasks s) = Inr (chg, tbl)"
      and res: "res = (map snd chg, s\<lparr>tasks := tbl\<rparr>)"
      by (auto simp: update_tasks_def split: sum.splits prod.splits if_splits)
    have "\<forall>x \<in> set tbl. tasks_row_valid x"
      using update_rows_invariant[OF u, of tasks_row_valid] assms
      by (auto dest: update_tasks_row_valid)
    with Inr res show ?thesis by (simp add: request_def)
  qed
  show "\<forall>t \<in> set (tasks (snd (request (delete_tasks uid wh) s))). tasks_row_valid t"
    using assms by (simp add: request_def delete_tasks_def Let_def)
  show "\<forall>t \<in> set (tasks (snd (request (delete_clients uid wc) s))). tasks_row_valid t"
    using assms by (simp add: request_def delete_clients_def Let_def)
qed

text \<open>A status outside the enumerated set is rejected, and the store stays as it was.\<close>

lemma task_with_unknown_status_rejected:
  "request (insert_tasks 2 20 (demo_task_input\<lparr>ti_status := Val ''Blocked''\<rparr>)) demo_db =
     (Inl (Check_violation ''tasks_status_check''), demo_db)"
  by (simp add: task_insert_defs demo_db_def demo_task_input_def)

text \<open>
  The insert policies of the children of a task ask for the parent to be the caller's:
  user 2 cannot attach a file or a comment to the task of user 1.
\<close>

lemma children_of_tasks_check_the_parent:
  "\<not> users_can_upload_attachments_to_their_tasks 2 demo_db_busy (Some 20) (Some 2)
   \<and> \<not> users_can_add_comments_to_their_tasks 2 demo_db_busy (Some 20) (Some 2)
   \<and> \<not> users_can_create_categories_for_their_clients 2 demo_db_busy (Some 10)"
  by (simp add: users_can_upload_attachments_to_their_tasks_def
        users_can_add_comments_to_their_tasks_def users_can_create_categories_for_their_clients_def
        owns_task_def owns_client_def users_can_view_their_own_tasks_def
        users_can_view_their_own_clients_def demo_db_busy_def demo_db_def demo_task_def)

subsection \<open>Claims on the entity store\<close>

text \<open>
  C1 says that a task insert is permitted only when the row's \<^verbatim>\<open>user_id\<close> is the
  caller and the referenced client is owned by the caller, so that a task naming the
  client of another identity is rejected. The policy "Users can create tasks" checks
  the \<^verbatim>\<open>user_id\<close> alone: user 2, who does not own client 10, inserts a task for it,
  and the row is stored.
\<close>

theorem task_insert_on_foreign_client_accepted:
  "\<not> owns_client 2 demo_db (Some 10)
   \<and> request (insert_tasks 2 20 demo_task_input) demo_db =
       (Inr \<lparr>t_id = 20, t_user_id = 2, t_client_id = Some 10, t_category = ''tasks'',
             t_name = ''Borrowed'', t_status = ''Pending'', t_priority = Some ''Medium''\<rparr>,
        demo_db\<lparr>tasks := [\<lparr>t_id = 20, t_user_id = 2, t_client_id = Some 10,
             t_category = ''tasks'', t_name = ''Borrowed'', t_status = ''Pending'',
             t_priority = Some ''Medium''\<rparr>]\<rparr>)"
  by (simp add: task_insert_defs demo_db_def demo_task_input_def owns_client_def
        users_can_view_their_own_clients_def)

text \<open>
  C2, as amended: a read, update or delete addressed to rows whose ownership predicate
  is false for the caller is not rejected. The rows are filtered out: the statement
  succeeds with an empty result and changes nothing, exactly as when no row matches.
\<close>

theorem rows_of_others_are_filtered:
  "((\<forall>c \<in> set (clients s). wh c \<longrightarrow> c_user_id c \<noteq> uid) \<longrightarrow>
        request (select_clients uid wh) s = (Inr [], s)
      \<and> request (update_clients uid wh cu) s = (Inr [], s)
      \<and> request (delete_clients uid wh) s = (Inr [], s))
 \<and> ((\<forall>t \<in> set (tasks s). wt t \<longrightarrow> t_user_id t \<noteq> uid) \<longrightarrow>
        request (select_tasks uid wt) s = (Inr [], s)
      \<and> request (update_tasks uid wt tu) s = (Inr [], s)
      \<and> request (delete_tasks uid wt) s = (Inr [], s))"
proof (rule conjI; rule impI)
  assume own: "\<forall>c \<in> set (clients s). wh c \<longrightarrow> c_user_id c \<noteq> uid"
  from foreign_clients_untouched[OF own]
  show "request (select_clients uid wh) s = (Inr [], s)
      \<and> request (update_clients uid wh cu) s = (Inr [], s)
      \<and> request (delete_clients uid wh) s = (Inr [], s)"
    by simp
next
  assume own: "\<forall>t \<in> set (tasks s). wt t \<longrightarrow> t_user_id t \<noteq> uid"
  from foreign_tasks_untouched[OF own]
  show "request (select_tasks uid wt) s = (Inr [], s)
      \<and> request (update_tasks uid wt tu) s = (Inr [], s)
      \<and> request (delete_tasks uid wt) s = (Inr [], s)"
    by simp
qed

theorem rows_of_others_are_filtered_witness:
  "request (select_clients 2 (client_id_eq 10)) demo_db_busy = (Inr [], demo_db_busy)
   \<and> request (update_clients 2 (client_id_eq 10) (demo_client_input\<lparr>ci_user_id := Val 2\<rparr>))
       demo_db_busy = (Inr [], demo_db_busy)
   \<and> request (delete_clients 2 (client_id_eq 10)) demo_db_busy = (Inr [], demo_db_busy)
   \<and> request (select_tasks 2 (task_id_eq 20)) demo_db_busy = (Inr [], demo_db_busy)
   \<and> request (update_tasks 2 (task_id_eq 20) demo_task_input) demo_db_busy
       = (Inr [], demo_db_busy)
   \<and> request (delete_tasks 2 (task_id_eq 20)) demo_db_busy = (Inr [], demo_db_busy)"
proof -
  have c: "\<forall>c \<in> set (clients demo_db_busy). client_id_eq 10 c \<longrightarrow> c_user_id c \<noteq> 2"
    by (simp add: demo_db_busy_def demo_db_def)
  have t: "\<forall>t \<in> set (tasks demo_db_busy). task_id_eq 20 t \<longrightarrow> t_user_id t \<noteq> 2"
    by (simp add: demo_db_busy_def demo_db_def demo_task_def)
  from rows_of_others_are_filtered[of demo_db_busy "client_id_eq 10" 2
      "demo_client_input\<lparr>ci_user_id := Val 2\<rparr>" "task_id_eq 20" demo_task_input] c t
  show ?thesis by blast
qed

text \<open>
  C2 as stated asks for an explicit denial. User 2 deletes "the client with id 10",
  which user 1 owns: the delete policy is false for the row, and the request succeeds
  with no row deleted, as it would for an id that does not exist.
\<close>

theorem foreign_delete_is_not_denied:
  "\<not> users_can_delete_their_own_clients 2 demo_client
   \<and> demo_client \<in> set (clients demo_db)
   \<and> request (delete_clients 2 (client_id_eq 10)) demo_db = (Inr [], demo_db)
   \<and> request (delete_clients 2 (client_id_eq 99)) demo_db = (Inr [], demo_db)"
  by (simp add: request_def delete_clients_def users_can_delete_their_own_clients_def
        users_can_view_their_own_clients_def client_id_eq_def demo_db_def demo_client_def Let_def)

text \<open>
  C3: every successful insert of a client row creates exactly three rows of
  \<^verbatim>\<open>client_categories\<close>, which reference the new client's id and carry the tags
  \<^verbatim>\<open>tasks\<close>, \<^verbatim>\<open>gtm\<close> and \<^verbatim>\<open>recurring\<close>. The rows are keyed by the client's id:
  inserting the same payload again (same name, same owner, a freshly generated id, fresh
  identifiers for the category rows) succeeds and gives the second client three
  categories of its own.
\<close>

theorem client_insert_creates_three_categories:
  assumes first: "request (insert_clients uid gen (g1, g2, g3) inp) s = (Inr a, s1)"
  shows "clients s1 = clients s @ [a]
       \<and> client_categories s1 = client_categories s @
           [\<lparr>cc_id = g1, cc_client_id = c_id a, cc_category = ''tasks''\<rparr>,
            \<lparr>cc_id = g2, cc_client_id = c_id a, cc_category = ''gtm''\<rparr>,
            \<lparr>cc_id = g3, cc_client_id = c_id a, cc_category = ''recurring''\<rparr>]
       \<and> (gen' \<notin> set (map c_id (clients s1))
            \<and> gen' \<notin> set (map cc_client_id (client_categories s1))
            \<and> distinct [h1, h2, h3]
            \<and> set [h1, h2, h3] \<inter> set (map cc_id (client_categories s1)) = {} \<longrightarrow>
          request (insert_clients uid gen' (h1, h2, h3) (inp\<lparr>ci_id := Omitted\<rparr>)) s1
           = (Inr (a\<lparr>c_id := gen'\<rparr>),
              s1\<lparr>clients := clients s1 @ [a\<lparr>c_id := gen'\<rparr>],
                 client_categories := client_categories s1 @
                   [\<lparr>cc_id = h1, cc_client_id = gen', cc_category = ''tasks''\<rparr>,
                    \<lparr>cc_id = h2, cc_client_id = gen', cc_category = ''gtm''\<rparr>,
                    \<lparr>cc_id = h3, cc_client_id = gen', cc_category = ''recurring''\<rparr>]\<rparr>))"
proof -
  let ?s0 = "s\<lparr>clients := clients s @ [a]\<rparr>"
  note row = insert_clients_result(1)[OF first]
  note trg = insert_clients_result(2)[OF first]
  have s1: "s1 = ?s0\<lparr>client_categories := client_categories ?s0 @
           [\<lparr>cc_id = g1, cc_client_id = c_id a, cc_category = ''tasks''\<rparr>,
            \<lparr>cc_id = g2, cc_client_id = c_id a, cc_category = ''gtm''\<rparr>,
            \<lparr>cc_id = g3, cc_client_id = c_id a, cc_category = ''recurring''\<rparr>]\<rparr>"
    using trg by (rule create_default_categories_result)
  have created: "clients s1 = clients s @ [a]"
    "client_categories s1 = client_categories s @
           [\<lparr>cc_id = g1, cc_client_id = c_id a, cc_category = ''tasks''\<rparr>,
            \<lparr>cc_id = g2, cc_client_id = c_id a, cc_category = ''gtm''\<rparr>,
            \<lparr>cc_id = g3, cc_client_id = c_id a, cc_category = ''recurring''\<rparr>]"
    "auth_users s1 = auth_users s"
    by (simp_all add: s1)
  let ?b = "a\<lparr>c_id := gen'\<rparr>"
  let ?t0 = "s1\<lparr>clients := clients s1 @ [?b]\<rparr>"
  have user: "ci_user_id inp = Val uid" "c_user_id a = uid" "ci_name inp = Val (c_name a)"
    "uid \<in> set (auth_users s)"
    using insert_clients_row_result[OF row] by simp_all
  have b: "?b = \<lparr>c_id = gen', c_user_id = uid, c_name = c_name a\<rparr>"
    using user by simp
  have second: "request (insert_clients uid gen' (h1, h2, h3) (inp\<lparr>ci_id := Omitted\<rparr>)) s1
           = (Inr ?b,
              s1\<lparr>clients := clients s1 @ [?b],
                 client_categories := client_categories s1 @
                   [\<lparr>cc_id = h1, cc_client_id = gen', cc_category = ''tasks''\<rparr>,
                    \<lparr>cc_id = h2, cc_client_id = gen', cc_category = ''gtm''\<rparr>,
                    \<lparr>cc_id = h3, cc_client_id = gen', cc_category = ''recurring''\<rparr>]\<rparr>)"
    if fresh_client: "gen' \<notin> set (map c_id (clients s1))"
        "gen' \<notin> set (map cc_client_id (client_categories s1))"
      and fresh_categories: "distinct [h1, h2, h3]"
        "set [h1, h2, h3] \<inter> set (map cc_id (client_categories s1)) = {}"
  proof -
    have row2: "insert_clients_row uid gen' (inp\<lparr>ci_id := Omitted\<rparr>) s1 = Inr (?b, ?t0)"
      using user fresh_client(1) created(3) b
      by (simp add: insert_clients_row_def users_can_create_clients_def clients_not_null_def
            Let_def)
    have own: "owns_client uid ?t0 (Some gen')"
      using user by (simp add: owns_client_def users_can_view_their_own_clients_def)
    have trg2: "create_default_categories uid (h1, h2, h3) ?b ?t0 =
         Inr (?t0\<lparr>client_categories := client_categories ?t0 @
           [\<lparr>cc_id = h1, cc_client_id = gen', cc_category = ''tasks''\<rparr>,
            \<lparr>cc_id = h2, cc_client_id = gen', cc_category = ''gtm''\<rparr>,
            \<lparr>cc_id = h3, cc_client_id = gen', cc_category = ''recurring''\<rparr>]\<rparr>)"
      using own fresh_client(2) fresh_categories
      by (intro create_default_categories_succeeds) simp_all
    show ?thesis
      using row2 trg2 by (simp add: request_def insert_clients_def)
  qed
  from created(1,2) second show ?thesis by blast
qed

theorem client_insert_creates_three_categories_witness:
  "clients demo_db = clients (empty_db [1, 2]) @ [demo_client]
   \<and> client_categories demo_db = client_categories (empty_db [1, 2]) @
       [\<lparr>cc_id = 11, cc_client_id = c_id demo_client, cc_category = ''tasks''\<rparr>,
        \<lparr>cc_id = 12, cc_client_id = c_id demo_client, cc_category = ''gtm''\<rparr>,
        \<lparr>cc_id = 13, cc_client_id = c_id demo_client, cc_category = ''recurring''\<rparr>]
   \<and> request (insert_clients 1 50 (51, 52, 53) (demo_client_input\<lparr>ci_id := Omitted\<rparr>)) demo_db
       = (Inr (demo_client\<lparr>c_id := 50\<rparr>),
          demo_db\<lparr>clients := clients demo_db @ [demo_client\<lparr>c_id := 50\<rparr>],
             client_categories := client_categories demo_db @
               [\<lparr>cc_id = 51, cc_client_id = 50, cc_category = ''tasks''\<rparr>,
                \<lparr>cc_id = 52, cc_client_id = 50, cc_category = ''gtm''\<rparr>,
                \<lparr>cc_id = 53, cc_client_id = 50, cc_category = ''recurring''\<rparr>]\<rparr>)"
proof -
  have fresh: "50 \<notin> set (map c_id (clients demo_db))
      \<and> 50 \<notin> set (map cc_client_id (client_categories demo_db))
      \<and> distinct [51, 52, 53 :: uuid]
      \<and> set [51, 52, 53] \<inter> set (map cc_id (client_categories demo_db)) = {}"
    by (simp add: demo_db_def)
  from client_insert_creates_three_categories[OF demo_db_created, of 50 51 52 53] fresh
  show ?thesis by blast
qed

text \<open>
  C4: client creation with its default categories is atomic. When the row insert has gone
  through and any of the three category inserts of the trigger fails (the rows before
  it, if any, inserted), the request fails with that error and the store is the one
  before the request: no client row, no category row. The caller gets the error or the
  client row, nothing of the categories.
\<close>

theorem client_creation_is_atomic:
  assumes "insert_clients_row uid gen inp s = Inr (new, s1)"
    and "default_category_values gens new = before @ (g, row) # after"
    and "insert_client_categories uid before s1 = Inr s2"
    and "insert_client_categories_row uid g row s2 = Inl e"
  shows "request (insert_clients uid gen gens inp) s = (Inl e, s)"
proof -
  have "create_default_categories uid gens new s1 = Inl e"
    using assms(2-4) by (simp add: create_default_categories_def insert_client_categories_append)
  with assms(1) show ?thesis
    by (simp add: request_def insert_clients_def)
qed

theorem client_creation_is_atomic_witness:
  "request (insert_clients 1 50 (51, 12, 53) demo_client_input) demo_db
     = (Inl (Unique_violation ''client_categories_pkey''), demo_db)"
proof -
  let ?new = "demo_client\<lparr>c_id := 50\<rparr>"
  let ?s1 = "demo_db\<lparr>clients := clients demo_db @ [?new]\<rparr>"
  let ?row = "\<lambda>tag. \<lparr>cci_id = Omitted, cci_client_id = Val 50, cci_category = Val tag\<rparr>"
  let ?s2 = "?s1\<lparr>client_categories := client_categories ?s1
       @ [\<lparr>cc_id = 51, cc_client_id = 50, cc_category = ''tasks''\<rparr>]\<rparr>"
  have row: "insert_clients_row 1 50 demo_client_input demo_db = Inr (?new, ?s1)"
    by (simp add: client_insert_defs demo_db_def demo_client_def demo_client_input_def)
  have vals: "default_category_values (51, 12, 53) ?new
      = [(51, ?row ''tasks'')] @ (12, ?row ''gtm'') # [(53, ?row ''recurring'')]"
    by (simp add: default_category_values_def demo_client_def)
  have first: "insert_client_categories 1 [(51, ?row ''tasks'')] ?s1 = Inr ?s2"
    by (simp add: client_insert_defs demo_db_def demo_client_def)
  have second: "insert_client_categories_row 1 12 (?row ''gtm'') ?s2
      = Inl (Unique_violation ''client_categories_pkey'')"
    by (simp add: client_insert_defs demo_db_def demo_client_def)
  show ?thesis by (rule client_creation_is_atomic[OF row vals first second])
qed

text \<open>
  C5: deleting a client (a client of the caller that the \<^verbatim>\<open>WHERE\<close> clause selects)
  removes every category row and every task row that references it, and with those
  tasks their comments and attachments; deleting a task removes every comment and
  every attachment that references it.
\<close>

theorem deleting_cascades:
  "(c \<in> set (clients s) \<and> c_user_id c = uid \<and> wh c \<longrightarrow>
      (let s' = snd (request (delete_clients uid wh) s) in
         c \<notin> set (clients s')
       \<and> (\<forall>g \<in> set (client_categories s'). cc_client_id g \<noteq> c_id c)
       \<and> (\<forall>t \<in> set (tasks s'). t_client_id t \<noteq> Some (c_id c))
       \<and> (\<forall>t \<in> set (tasks s). t_client_id t = Some (c_id c) \<longrightarrow>
            (\<forall>m \<in> set (task_comments s'). tc_task_id m \<noteq> t_id t)
          \<and> (\<forall>a \<in> set (task_attachments s'). ta_task_id a \<noteq> t_id t))))
 \<and> (t \<in> set (tasks s) \<and> t_user_id t = uid \<and> wt t \<longrightarrow>
      (let s' = snd (request (delete_tasks uid wt) s) in
         t \<notin> set (tasks s')
       \<and> (\<forall>m \<in> set (task_comments s'). tc_task_id m \<noteq> t_id t)
       \<and> (\<forall>a \<in> set (task_attachments s'). ta_task_id a \<noteq> t_id t)))"
proof (intro conjI impI)
  assume h: "c \<in> set (clients s) \<and> c_user_id c = uid \<and> wh c"
  then show "let s' = snd (request (delete_clients uid wh) s) in
         c \<notin> set (clients s')
       \<and> (\<forall>g \<in> set (client_categories s'). cc_client_id g \<noteq> c_id c)
       \<and> (\<forall>t \<in> set (tasks s'). t_client_id t \<noteq> Some (c_id c))
       \<and> (\<forall>t \<in> set (tasks s). t_client_id t = Some (c_id c) \<longrightarrow>
            (\<forall>m \<in> set (task_comments s'). tc_task_id m \<noteq> t_id t)
          \<and> (\<forall>a \<in> set (task_attachments s'). ta_task_id a \<noteq> t_id t))"
    by (force simp: request_def delete_clients_def Let_def users_can_view_their_own_clients_def
          users_can_delete_their_own_clients_def split: option.splits)
next
  assume h: "t \<in> set (tasks s) \<and> t_user_id t = uid \<and> wt t"
  then show "let s' = snd (request (delete_tasks uid wt) s) in
         t \<notin> set (tasks s')
       \<and> (\<forall>m \<in> set (task_comments s'). tc_task_id m \<noteq> t_id t)
       \<and> (\<forall>a \<in> set (task_attachments s'). ta_task_id a \<noteq> t_id t)"
    by (force simp: request_def delete_tasks_def Let_def users_can_view_their_own_tasks_def
          users_can_delete_their_own_tasks_def)
qed

theorem deleting_cascades_witness:
  "demo_client \<in> set (clients demo_db_busy) \<and> c_user_id demo_client = 1
   \<and> client_id_eq 10 demo_client
   \<and> demo_task \<in> set (tasks demo_db_busy) \<and> t_user_id demo_task = 1
   \<and> task_id_eq 20 demo_task
   \<and> snd (request (delete_clients 1 (client_id_eq 10)) demo_db_busy) = empty_db [1, 2]
   \<and> snd (request (delete_tasks 1 (task_id_eq 20)) demo_db_busy) = demo_db"
  using deleting_cascades[of demo_client demo_db_busy 1 "client_id_eq 10" demo_task "task_id_eq 20"]
  by (simp add: request_def delete_clients_def delete_tasks_def Let_def
        users_can_view_their_own_clients_def users_can_delete_their_own_clients_def
        users_can_view_their_own_tasks_def users_can_delete_their_own_tasks_def
        client_id_eq_def task_id_eq_def demo_db_busy_def demo_db_def demo_client_def
        demo_task_def empty_db_def)

text \<open>
  C6 says that every task row has its status, priority and category in the enumerated
  sets. The column \<^verbatim>\<open>priority\<close> is declared without \<^verbatim>\<open>NOT NULL\<close>, and its check
  passes on null: on the empty store, user 2 inserts a task with \<^verbatim>\<open>priority\<close> null
  and the row is stored with no priority.
\<close>

theorem task_with_null_priority_accepted:
  "request (insert_tasks 2 20 (demo_task_input\<lparr>ti_client_id := Omitted, ti_priority := Null\<rparr>))
     (empty_db [1, 2]) =
       (Inr \<lparr>t_id = 20, t_user_id = 2, t_client_id = None, t_category = ''tasks'',
             t_name = ''Borrowed'', t_status = ''Pending'', t_priority = None\<rparr>,
        (empty_db [1, 2])\<lparr>tasks := [\<lparr>t_id = 20, t_user_id = 2, t_client_id = None,
             t_category = ''tasks'', t_name = ''Borrowed'', t_status = ''Pending'',
             t_priority = None\<rparr>]\<rparr>)"
  by (simp add: task_insert_defs empty_db_def demo_task_input_def)

text \<open>
  C7: the provisioning of the default categories is not idempotent, and it runs once per
  client insert and never on update. After a successful client insert the store is the
  result of one run of the trigger function on the store that holds the new row; a
  second run for the same client raises a unique violation, whatever identifiers are
  generated for its rows; and no update of \<^verbatim>\<open>clients\<close>, successful or not, changes
  \<^verbatim>\<open>client_categories\<close>.
\<close>

theorem default_categories_not_idempotent:
  assumes "request (insert_clients uid gen (g1, g2, g3) inp) s = (Inr new, s')"
  shows "create_default_categories uid (g1, g2, g3) new (s\<lparr>clients := clients s @ [new]\<rparr>) = Inr s'
       \<and> (\<exists>k. create_default_categories uid (h1, h2, h3) new s' = Inl (Unique_violation k))
       \<and> client_categories (snd (request (update_clients uid' wh upd) t)) = client_categories t"
proof -
  let ?inp = "\<lparr>cci_id = Omitted, cci_client_id = Val (c_id new), cci_category = Val ''tasks''\<rparr>"
  note run = insert_clients_result(2)[OF assms]
  note res = create_default_categories_result[OF run]
  have own: "owns_client uid s' (Some (c_id new))"
    using create_default_categories_owner[OF run] res by simp
  have key: "(c_id new, ''tasks'')
      \<in> set (map (\<lambda>r. (cc_client_id r, cc_category r)) (client_categories s'))"
    using res by simp
  have "\<exists>k. insert_client_categories_row uid h1 ?inp s' = Inl (Unique_violation k)"
    using own key
    by (simp add: insert_client_categories_row_def users_can_create_categories_for_their_clients_def
          category_tags_def Let_def)
  then have "\<exists>k. create_default_categories uid (h1, h2, h3) new s' = Inl (Unique_violation k)"
    by (auto simp: create_default_categories_def default_category_values_def)
  with run show ?thesis
    by (simp add: update_clients_keeps_categories)
qed

theorem default_categories_not_idempotent_witness:
  "create_default_categories 1 (11, 12, 13) demo_client
       ((empty_db [1, 2])\<lparr>clients := clients (empty_db [1, 2]) @ [demo_client]\<rparr>) = Inr demo_db
   \<and> (\<exists>k. create_default_categories 1 (21, 22, 23) demo_client demo_db = Inl (Unique_violation k))
   \<and> client_categories (snd (request (update_clients 1 (client_id_eq 10)
         (demo_client_input\<lparr>ci_name := Val ''Acme Ltd''\<rparr>)) demo_db)) = client_categories demo_db"
  by (rule default_categories_not_idempotent[OF demo_db_created])

section \<open>Properties of the event sync proxy\<close>

lemmas handler_defs =
  handler_def dispatch_def truthy_def store_list_def store_create_def store_update_def
  store_delete_def Let_def

lemmas demo_request_defs =
  demo_request_def demo_env_def demo_events_def demo_body_def

lemma dispatch_calls:
  "dispatch ev uid req evs = (r, evs', calls) \<Longrightarrow> c \<in> set calls \<Longrightarrow> \<exists>k. c = Store_call k"
  by (auto simp: dispatch_def split: if_splits sum.splits option.splits prod.splits)

text \<open>
  The preflight answer and the answer to a request without \<^verbatim>\<open>Authorization\<close> header
  come before the identity provider is asked; neither touches the store.
\<close>

lemma before_validation:
  "handler ev (req\<lparr>req_method := ''OPTIONS''\<rparr>) evs = (\<lparr>status = 200, body = No_body\<rparr>, evs, [])"
  "req_method req \<noteq> ''OPTIONS'' \<Longrightarrow>
   handler ev (req\<lparr>req_authorization := None\<rparr>) evs
     = (\<lparr>status = 500, body = Error_message Type_error\<rparr>, evs, [])"
  by (simp_all add: handler_def)




text \<open>
  When a failed call of the identity provider shows in what the handler did, the answer
  is the 401 response, and that call is all the handler did.
\<close>

lemma failed_lookup_in_trace:
  assumes run: "handler ev req evs = (response, evs', trace)"
    and seen: "Auth_get_user token (user, auth_error) \<in> set trace"
    and failed: "user = None \<or> auth_error \<noteq> None"
  shows "response = \<lparr>status = 401, body = Error_body ''Unauthorized''\<rparr>
       \<and> evs' = evs \<and> trace = [Auth_get_user token (user, auth_error)]"
proof (cases "req_method req = ''OPTIONS''")
  case True
  with run seen show ?thesis by (simp add: handler_def)
next
  case False
  show ?thesis
  proof (cases "req_authorization req")
    case None
    with False run seen show ?thesis by (simp add: handler_def)
  next
    case (Some h)
    obtain u e where lk: "get_user ev (replace_first ''Bearer '' [] h) = (u, e)"
      by (cases "get_user ev (replace_first ''Bearer '' [] h)") auto
    show ?thesis
    proof (cases "u = None \<or> e \<noteq> None")
      case True
      with False Some lk run seen show ?thesis
        by (auto simp: handler_def Let_def split: option.splits)
    next
      case ok: False
      then obtain uid where u: "u = Some uid" and e: "e = None" by auto
      obtain r d calls where d: "dispatch ev uid req evs = (r, d, calls)"
        by (cases "dispatch ev uid req evs") auto
      from False Some lk u e d run
      have tr: "trace = Auth_get_user (replace_first ''Bearer '' [] h) (Some uid, None) # calls"
        by (auto simp: handler_def Let_def split: sum.splits)
      from seen failed tr have "Auth_get_user token (user, auth_error) \<in> set calls"
        by auto
      with dispatch_calls[OF d] show ?thesis by blast
    qed
  qed
qed

text \<open>
  C9: for every request that carries a bearer credential (any method but the
  \<^verbatim>\<open>OPTIONS\<close> preflight, an \<^verbatim>\<open>Authorization\<close> header \<open>h\<close>) which the identity
  provider does not validate (for the token of \<open>h\<close> it returns an error, or no user),
  the handler asks the identity provider and answers 401 with the body
  \<^verbatim>\<open>{ error: 'Unauthorized' }\<close>; the store is unchanged and the call of the identity
  provider is all the handler does: no store call, no event data, whatever action, id
  and body the request names.
\<close>

theorem failed_validation_is_unauthorized:
  assumes "req_method req \<noteq> ''OPTIONS''"
    and "req_authorization req = Some h"
    and "get_user ev (replace_first ''Bearer '' [] h) = (user, auth_error)"
    and "user = None \<or> auth_error \<noteq> None"
  shows "handler ev req evs =
           (\<lparr>status = 401, body = Error_body ''Unauthorized''\<rparr>, evs,
            [Auth_get_user (replace_first ''Bearer '' [] h) (user, auth_error)])"
proof (cases auth_error)
  case (Some err)
  with assms(1-3) show ?thesis
    by (simp add: handler_def Let_def split: option.splits)
next
  case None
  with assms(4) have "user = None" by simp
  with None assms(1-3) show ?thesis
    by (simp add: handler_def Let_def)
qed

theorem failed_validation_is_unauthorized_witness:
  "handler demo_env (demo_request ''stale'' ''create'' None (Some demo_body)) demo_events =
     (\<lparr>status = 401, body = Error_body ''Unauthorized''\<rparr>, demo_events,
      [Auth_get_user (replace_first ''Bearer '' [] ''Bearer stale'')
         (None, Some ''invalid JWT'')])"
proof -
  let ?req = "demo_request ''stale'' ''create'' None (Some demo_body)"
  have 1: "req_method ?req \<noteq> ''OPTIONS''"
    and 2: "req_authorization ?req = Some ''Bearer stale''"
    and 3: "get_user demo_env (replace_first ''Bearer '' [] ''Bearer stale'')
        = (None, Some ''invalid JWT'')"
    and 4: "(None :: uuid option) = None \<or> Some ''invalid JWT'' \<noteq> (None :: string option)"
    by (simp_all add: demo_request_defs)
  show ?thesis by (rule failed_validation_is_unauthorized[OF 1 2 3 4])
qed

text \<open>
  C10, as amended: an authenticated delete request without the \<^verbatim>\<open>id\<close> parameter, and
  an authenticated update request without the \<^verbatim>\<open>id\<close> parameter whose body parses as
  JSON, are answered with 400 and the error "Event ID required", and no store call is
  made.
\<close>

theorem missing_id_is_bad_request:
  assumes "req_method req \<noteq> ''OPTIONS''"
    and "req_authorization req = Some h"
    and "get_user ev (replace_first ''Bearer '' [] h) = (Some uid, None)"
    and "req_id req = None"
  shows "handler ev (req\<lparr>req_action := Some ''delete''\<rparr>) evs =
           (\<lparr>status = 400, body = Error_body ''Event ID required''\<rparr>, evs,
            [Auth_get_user (replace_first ''Bearer '' [] h) (Some uid, None)])
       \<and> handler ev (req\<lparr>req_action := Some ''update'', req_json := Some b\<rparr>) evs =
           (\<lparr>status = 400, body = Error_body ''Event ID required''\<rparr>, evs,
            [Auth_get_user (replace_first ''Bearer '' [] h) (Some uid, None)])"
  using assms by (simp add: handler_def dispatch_def truthy_def Let_def)

theorem missing_id_is_bad_request_witness:
  "handler demo_env ((demo_request ''good'' ''list'' None None)
       \<lparr>req_action := Some ''delete''\<rparr>) demo_events =
     (\<lparr>status = 400, body = Error_body ''Event ID required''\<rparr>, demo_events,
      [Auth_get_user (replace_first ''Bearer '' [] ''Bearer good'') (Some 1, None)])
   \<and> handler demo_env ((demo_request ''good'' ''list'' None None)
       \<lparr>req_action := Some ''update'', req_json := Some demo_body\<rparr>) demo_events =
     (\<lparr>status = 400, body = Error_body ''Event ID required''\<rparr>, demo_events,
      [Auth_get_user (replace_first ''Bearer '' [] ''Bearer good'') (Some 1, None)])"
proof -
  let ?req = "demo_request ''good'' ''list'' None None"
  have 1: "req_method ?req \<noteq> ''OPTIONS''"
    and 2: "req_authorization ?req = Some ''Bearer good''"
    and 3: "get_user demo_env (replace_first ''Bearer '' [] ''Bearer good'') = (Some 1, None)"
    and 4: "req_id ?req = None"
    by (simp_all add: demo_request_defs)
  show ?thesis by (rule missing_id_is_bad_request[OF 1 2 3 4])
qed

text \<open>
  C10 as stated covers every authenticated update request without \<^verbatim>\<open>id\<close>. The update
  branch reads the body before it looks at the \<^verbatim>\<open>id\<close>: when the body does not parse,
  \<^verbatim>\<open>req.json()\<close> throws and the answer is the 500 error response.
\<close>

theorem update_without_id_and_body_is_500:
  "handler demo_env (demo_request ''good'' ''update'' None None) demo_events =
     (\<lparr>status = 500, body = Error_message Syntax_error\<rparr>, demo_events,
      [Auth_get_user ''good'' (Some 1, None)])"
  by (simp add: handler_defs demo_request_defs)

end
